theory Spec2Isabelle
  imports Main
begin

section \<open>Ticket scanner screen (src/app/scanner.tsx)\<close>

subsection \<open>Bookings\<close>

text \<open>
  The three booking states the screen distinguishes: the keys of \<open>statusColors\<close> and
  \<open>statusLabels\<close>, and the string literals compared against \<open>booking.status\<close>.
\<close>

datatype status = confirmed | cancelled | used

text \<open>
  Modelled from the spec: the \<open>Booking\<close> type is imported from the event context
  (\<open>@/context/EventContext\<close>), a module that is not among the source files covered
  here. The record has the fields of the spec's
  data model, which are also the only fields the scanner reads: \<open>id\<close> (here \<open>id_b\<close>),
  \<open>qrCode\<close>, \<open>status\<close>, \<open>ticketCount\<close> and \<open>totalPrice\<close>. Every function below is
  stated over the record scheme, so any further field of a booking is carried along in
  the extension part. Strings are code-unit lists compared with HOL equality, as
  \<open>===\<close> compares them; the two amounts are integers.
\<close>

record booking =
  id_b :: string
  qrCode :: string
  status :: status
  ticketCount :: int
  totalPrice :: int

subsection \<open>Scan results\<close>

text \<open>The \<open>type\<close> field of the \<open>scanResult\<close> state.\<close>

datatype result_type = success | error | warning

text \<open>
  The titles and messages of the screen are Arabic string literals and template strings.
  Each literal is one constructor; a template keeps its interpolated values as arguments,
  so the conversion of a number to its text is not modelled.
  \<^item> \<open>InvalidTicket\<close>, \<open>NotInSystem\<close>: title and message of the branch for a code that
    matches no booking (the ticket is invalid; the code is wrong or the ticket is not in
    the system).
  \<^item> \<open>UsedTicket\<close>, \<open>UsedBefore n p\<close>: the ticket was used before, followed by the
    ticket count \<open>n\<close> and the price text \<open>p\<close>.
  \<^item> \<open>CancelledTicket\<close>, \<open>WasCancelled\<close>: the ticket was cancelled and cannot be used.
  \<^item> \<open>ValidTicket\<close>, \<open>TicketOk n p\<close>: the ticket is valid, followed by the ticket count and
    the price text.
  \<^item> \<open>ScanError\<close>, \<open>ProcessingError\<close>: the \<open>catch\<close> branch of \<open>processQRCode\<close>.
  The price text is the word for "free" or the amount followed by the currency.
\<close>

datatype price_text = Free | Dinars int

datatype title = InvalidTicket | UsedTicket | CancelledTicket | ValidTicket | ScanError

datatype message =
    NotInSystem
  | UsedBefore int price_text
  | WasCancelled
  | TicketOk int price_text
  | ProcessingError

record scan_result =
  type_r :: result_type
  title :: title
  message :: message

text \<open>
  The conditional that both templates interpolate for the price:
  \<open>totalPrice === 0 ? free : totalPrice followed by the currency\<close>.
\<close>

definition priceText :: "int \<Rightarrow> price_text" where
  "priceText p = (if p = 0 then Free else Dinars p)"

subsection \<open>Screen state\<close>

text \<open>The two alerts \<open>confirmEntry\<close> can raise: entry confirmed, and entry registration failed.\<close>

datatype alert = EntryConfirmed | EntryFailed

text \<open>
  The state the handlers read and write: the booking list of the event context, the
  \<open>useState\<close> cells \<open>scanned\<close>, \<open>scanResult\<close> and \<open>manualQRCode\<close>, the two refs
  \<open>lastScannedCode\<close> and \<open>scanTimeoutRef\<close> (as whether a timeout is pending), and the
  alerts shown so far, oldest first.

  A handler is a closure of one render of the screen. It reads the cells \<open>scanned\<close>
  and \<open>bookings\<close> as that render bound them, it reads the refs as they are when it
  runs, and what it sets is seen by later renders. The handlers named as in the source
  (\<open>processQRCode\<close>, \<open>confirmEntry\<close>, \<open>handleBarCodeScanned\<close>) are those of the
  current render, which has bound the state as it is; the definitions ending in \<open>_on\<close>
  further below take the render as an argument, for a call that reaches the handler of
  an earlier render.
\<close>

record 'a scanner =
  bookings :: "'a booking_scheme list"
  scanned :: bool
  scanResult :: "scan_result option"
  manualQRCode :: string
  lastScannedCode :: string
  scanTimeoutPending :: bool
  alerts :: "alert list"

text \<open>
  \<open>processQRCode\<close>: sets the flag and the remembered code, then classifies the first
  booking whose \<open>qrCode\<close> equals the code. Nothing in the \<open>try\<close> block raises on a
  well-typed booking list, so the \<open>catch\<close> branch has no input that reaches it.
\<close>

definition processQRCode :: "string \<Rightarrow> 'a scanner \<Rightarrow> 'a scanner" where
  "processQRCode data st =
     (let st1 = st\<lparr>scanned := True, lastScannedCode := data\<rparr> in
      case find (\<lambda>b. qrCode b = data) (bookings st1) of
        None \<Rightarrow>
          st1\<lparr>scanResult := Some \<lparr>type_r = error, title = InvalidTicket, message = NotInSystem\<rparr>\<rparr>
      | Some booking \<Rightarrow>
          if status booking = used then
            st1\<lparr>scanResult := Some \<lparr>type_r = warning, title = UsedTicket,
              message = UsedBefore (ticketCount booking) (priceText (totalPrice booking))\<rparr>\<rparr>
          else if status booking = cancelled then
            st1\<lparr>scanResult := Some \<lparr>type_r = error, title = CancelledTicket,
              message = WasCancelled\<rparr>\<rparr>
          else
            st1\<lparr>scanResult := Some \<lparr>type_r = success, title = ValidTicket,
              message = TicketOk (ticketCount booking) (priceText (totalPrice booking))\<rparr>\<rparr>)"

text \<open>
  Modelled from the spec: \<open>markTicketAsUsed\<close> belongs to the event context, a module
  that is not among the source files covered here. The spec describes it as the status-mutating operation of
  the booking store behind the source's read-then-write redemption: a plain write, with
  no comparison of its own, that changes the status, and only the status, of the booking
  with the given id to \<open>used\<close>. The call is awaited inside a \<open>try\<close>, so it may also
  fail; the spec's kind for that is \<open>StoreUnavailable\<close>, the store cannot be reached and
  nothing is written. Whether the store is reached is an input of the call.
\<close>

datatype store_error = StoreUnavailable

definition markTicketAsUsed ::
    "bool \<Rightarrow> string \<Rightarrow> 'a booking_scheme list \<Rightarrow> store_error + 'a booking_scheme list" where
  "markTicketAsUsed reachable bid bs =
     (if reachable then Inr (map (\<lambda>b. if id_b b = bid then b\<lparr>status := used\<rparr> else b) bs)
      else Inl StoreUnavailable)"

text \<open>
  \<open>resetScanner\<close>: clears the flag, the result, the remembered code and the manual input;
  any pending timeout is cleared and a new one is set, which clears the flag once more
  when it fires (\<open>scanTimeoutFired\<close>).
\<close>

definition resetScanner :: "'a scanner \<Rightarrow> 'a scanner" where
  "resetScanner st =
     st\<lparr>scanned := False, scanResult := None, lastScannedCode := [], manualQRCode := [],
        scanTimeoutPending := True\<rparr>"

definition scanTimeoutFired :: "'a scanner \<Rightarrow> 'a scanner" where
  "scanTimeoutFired st =
     (if scanTimeoutPending st then st\<lparr>scanned := False, scanTimeoutPending := False\<rparr> else st)"

text \<open>
  \<open>confirmEntry\<close>: looks the remembered code up again and, only if the booking found is
  still \<open>confirmed\<close>, marks it as used and raises the confirmation alert. A failure of the
  store call is caught: the failure alert is raised and the scanner is reset. In every
  other case the function falls through both \<open>if\<close> and \<open>try\<close> without doing anything.
  The button of the confirmation alert calls \<open>resetScanner\<close>; pressing it is a handler
  call of its own.
\<close>

definition confirmEntry :: "bool \<Rightarrow> 'a scanner \<Rightarrow> 'a scanner" where
  "confirmEntry reachable st =
     (case find (\<lambda>b. qrCode b = lastScannedCode st) (bookings st) of
        None \<Rightarrow> st
      | Some booking \<Rightarrow>
          if status booking = confirmed then
            (case markTicketAsUsed reachable (id_b booking) (bookings st) of
               Inr bs \<Rightarrow> st\<lparr>bookings := bs, alerts := alerts st @ [EntryConfirmed]\<rparr>
             | Inl e \<Rightarrow> resetScanner (st\<lparr>alerts := alerts st @ [EntryFailed]\<rparr>))
          else st)"

text \<open>
  \<open>handleBarCodeScanned\<close>: a camera event is dropped while the flag is set or when it
  repeats the remembered code; otherwise the pending timeout is cleared and the code is
  processed.
\<close>

definition handleBarCodeScanned :: "string \<Rightarrow> 'a scanner \<Rightarrow> 'a scanner" where
  "handleBarCodeScanned data st =
     (if scanned st \<or> data = lastScannedCode st then st
      else processQRCode data (st\<lparr>scanTimeoutPending := False\<rparr>))"

text \<open>
  What can happen to the screen, one handler call at a time: a camera event, a code
  handed to \<open>processQRCode\<close> directly (the manual entry), a press on the confirm button
  (with whether the store is reached), a reset, and the reset's timeout firing. In
  \<open>step\<close> and \<open>run\<close> the screen has rendered again before each call, so each call
  reaches the handler of the current render.
\<close>

datatype event =
    BarCodeScanned string
  | ProcessQRCode string
  | ConfirmEntry bool
  | ResetScanner
  | ScanTimeout

fun step :: "'a scanner \<Rightarrow> event \<Rightarrow> 'a scanner" where
  "step st (BarCodeScanned data) = handleBarCodeScanned data st"
| "step st (ProcessQRCode data) = processQRCode data st"
| "step st (ConfirmEntry reachable) = confirmEntry reachable st"
| "step st ResetScanner = resetScanner st"
| "step st ScanTimeout = scanTimeoutFired st"

definition run :: "'a scanner \<Rightarrow> event list \<Rightarrow> 'a scanner" where
  "run st evs = foldl step st evs"

text \<open>
  The same handlers as closures of a given render: \<open>bookings\<close> and \<open>scanned\<close>, bound
  once per render by \<open>useEvents\<close> and \<open>useState\<close> at the top of the component, are read
  from the render, the ref \<open>lastScannedCode\<close> and everything written belong to the
  state at the time of the call. The write of \<open>markTicketAsUsed\<close> goes to the store as
  it is at the time of the call.
\<close>

definition processQRCode_on :: "'a scanner \<Rightarrow> string \<Rightarrow> 'a scanner \<Rightarrow> 'a scanner" where
  "processQRCode_on render data st =
     (let st1 = st\<lparr>scanned := True, lastScannedCode := data\<rparr> in
      case find (\<lambda>b. qrCode b = data) (bookings render) of
        None \<Rightarrow>
          st1\<lparr>scanResult := Some \<lparr>type_r = error, title = InvalidTicket, message = NotInSystem\<rparr>\<rparr>
      | Some booking \<Rightarrow>
          if status booking = used then
            st1\<lparr>scanResult := Some \<lparr>type_r = warning, title = UsedTicket,
              message = UsedBefore (ticketCount booking) (priceText (totalPrice booking))\<rparr>\<rparr>
          else if status booking = cancelled then
            st1\<lparr>scanResult := Some \<lparr>type_r = error, title = CancelledTicket,
              message = WasCancelled\<rparr>\<rparr>
          else
            st1\<lparr>scanResult := Some \<lparr>type_r = success, title = ValidTicket,
              message = TicketOk (ticketCount booking) (priceText (totalPrice booking))\<rparr>\<rparr>)"

definition confirmEntry_on :: "'a scanner \<Rightarrow> bool \<Rightarrow> 'a scanner \<Rightarrow> 'a scanner" where
  "confirmEntry_on render reachable st =
     (case find (\<lambda>b. qrCode b = lastScannedCode st) (bookings render) of
        None \<Rightarrow> st
      | Some booking \<Rightarrow>
          if status booking = confirmed then
            (case markTicketAsUsed reachable (id_b booking) (bookings st) of
               Inr bs \<Rightarrow> st\<lparr>bookings := bs, alerts := alerts st @ [EntryConfirmed]\<rparr>
             | Inl e \<Rightarrow> resetScanner (st\<lparr>alerts := alerts st @ [EntryFailed]\<rparr>))
          else st)"

definition handleBarCodeScanned_on :: "'a scanner \<Rightarrow> string \<Rightarrow> 'a scanner \<Rightarrow> 'a scanner" where
  "handleBarCodeScanned_on render data st =
     (if scanned render \<or> data = lastScannedCode st then st
      else processQRCode_on render data (st\<lparr>scanTimeoutPending := False\<rparr>))"

fun step_on :: "'a scanner \<Rightarrow> 'a scanner \<Rightarrow> event \<Rightarrow> 'a scanner" where
  "step_on render st (BarCodeScanned data) = handleBarCodeScanned_on render data st"
| "step_on render st (ProcessQRCode data) = processQRCode_on render data st"
| "step_on render st (ConfirmEntry reachable) = confirmEntry_on render reachable st"
| "step_on render st ResetScanner = resetScanner st"
| "step_on render st ScanTimeout = scanTimeoutFired st"

text \<open>
  The screen over time is the list of its states, newest first. An event comes with the
  age of the render whose handler receives it: 0 for the render of the newest state,
  \<open>k\<close> for the render made \<open>k\<close> states earlier, and the oldest render of the list when
  the list is shorter than that.
\<close>

fun deliver :: "'a scanner list \<Rightarrow> nat \<times> event \<Rightarrow> 'a scanner list" where
  "deliver [] (age, e) = []"
| "deliver (st # past) (age, e) =
     step_on ((st # past) ! min age (length past)) st e # st # past"

definition deliveries :: "'a scanner list \<Rightarrow> (nat \<times> event) list \<Rightarrow> 'a scanner list" where
  "deliveries hist evs = foldl deliver hist evs"

text \<open>
  A scan is on display and stays there: the flag is set and no reset timeout is pending.
\<close>

definition displayed :: "'a scanner \<Rightarrow> bool" where
  "displayed st \<longleftrightarrow> scanned st \<and> \<not> scanTimeoutPending st"

text \<open>
  Whether a handler call runs \<open>resetScanner\<close>: the reset itself (the reset buttons and
  the button of the confirmation alert), and the \<open>catch\<close> branch of \<open>confirmEntry\<close>,
  reached when the store call is made, for a booking read as \<open>confirmed\<close>, and fails.
  \<open>no_reset\<close> says that none of the deliveries of a sequence runs it.
\<close>

fun runs_reset :: "'a scanner \<Rightarrow> 'a scanner \<Rightarrow> event \<Rightarrow> bool" where
  "runs_reset render st ResetScanner = True"
| "runs_reset render st (ConfirmEntry reachable) =
     (\<not> reachable \<and>
      (case find (\<lambda>b. qrCode b = lastScannedCode st) (bookings render) of
         None \<Rightarrow> False
       | Some booking \<Rightarrow> status booking = confirmed))"
| "runs_reset render st (BarCodeScanned data) = False"
| "runs_reset render st (ProcessQRCode data) = False"
| "runs_reset render st ScanTimeout = False"

fun no_reset :: "'a scanner list \<Rightarrow> (nat \<times> event) list \<Rightarrow> bool" where
  "no_reset hist [] = True"
| "no_reset [] (ev # evs) = True"
| "no_reset (st # past) ((age, e) # evs) =
     (\<not> runs_reset ((st # past) ! min age (length past)) st e
      \<and> no_reset (deliver (st # past) (age, e)) evs)"

text \<open>
  Confirmation attempts that reach the store, one per render of the list, each received
  by the handler of its render.
\<close>

definition attempts :: "'a scanner list \<Rightarrow> 'a scanner \<Rightarrow> 'a scanner" where
  "attempts renders st = foldl (\<lambda>s render. confirmEntry_on render True s) st renders"

text \<open>
  The only change the screen may make to a booking: none, or \<open>confirmed\<close> to \<open>used\<close> with
  every other field kept.
\<close>

definition redeemed_or_same :: "'a booking_scheme \<Rightarrow> 'a booking_scheme \<Rightarrow> bool" where
  "redeemed_or_same b b' \<longleftrightarrow> b' = b \<or> (status b = confirmed \<and> b' = b\<lparr>status := used\<rparr>)"

text \<open>
  The screen as it is mounted over a booking list: the initial values of the state cells
  and refs.
\<close>

definition mounted :: "'a booking_scheme list \<Rightarrow> 'a scanner" where
  "mounted bs =
     \<lparr>bookings = bs, scanned = False, scanResult = None, manualQRCode = [],
      lastScannedCode = [], scanTimeoutPending = False, alerts = []\<rparr>"

text \<open>Three bookings, one in each status, for the concrete instances below.\<close>

definition ticket_confirmed :: booking where
  "ticket_confirmed =
     \<lparr>id_b = ''b1'', qrCode = ''MI3AD-001'', status = confirmed, ticketCount = 2, totalPrice = 0\<rparr>"

definition ticket_cancelled :: booking where
  "ticket_cancelled =
     \<lparr>id_b = ''b2'', qrCode = ''X'', status = cancelled, ticketCount = 1, totalPrice = 25\<rparr>"

definition ticket_used :: booking where
  "ticket_used =
     \<lparr>id_b = ''b3'', qrCode = ''MI3AD-003'', status = used, ticketCount = 3, totalPrice = 45\<rparr>"

definition door_list :: "booking list" where
  "door_list = [ticket_confirmed, ticket_cancelled, ticket_used]"

section \<open>Password hashing (src/utils/securityUtils.ts)\<close>

text \<open>
  A JavaScript string is a sequence of UTF-16 code units, here natural numbers.
\<close>

type_synonym jsstring = "nat list"

text \<open>
  The three branches of \<open>hashPassword\<close>: the web platform, a native platform on which the
  crypto module was loaded, and a native platform on which it was not.
\<close>

datatype platform = Web | NativeCrypto | NativeNoCrypto

datatype security_error = HashingFailed

record hash_result =
  hash :: jsstring
  salt :: jsstring

text \<open>\<open>s.substring(start, end)\<close>: the arguments are swapped when out of order.\<close>

definition substring :: "nat \<Rightarrow> nat \<Rightarrow> jsstring \<Rightarrow> jsstring" where
  "substring start end s = take (max start end - min start end) (drop (min start end) s)"

text \<open>
  The platform's \<open>btoa\<close>, after its standard definition: a string with a code unit above
  255 is rejected with an exception; otherwise each code unit is a byte and the bytes are
  encoded in base 64 with padding.
\<close>

definition base64_alphabet :: string where
  "base64_alphabet = ''ABCDEFGHIJKLMNOPQRSTUVWXYZabcdefghijklmnopqrstuvwxyz0123456789+/''"

definition base64_digit :: "nat \<Rightarrow> nat" where
  "base64_digit i = of_char (base64_alphabet ! i)"

definition base64_pad :: nat where
  "base64_pad = of_char CHR ''=''"

fun base64 :: "nat list \<Rightarrow> jsstring" where
  "base64 [] = []"
| "base64 [a] = [base64_digit (a div 4), base64_digit ((a mod 4) * 16), base64_pad, base64_pad]"
| "base64 [a, b] =
     [base64_digit (a div 4), base64_digit ((a mod 4) * 16 + b div 16),
      base64_digit ((b mod 16) * 4), base64_pad]"
| "base64 (a # b # c # bs) =
     [base64_digit (a div 4), base64_digit ((a mod 4) * 16 + b div 16),
      base64_digit ((b mod 16) * 4 + c div 64), base64_digit (c mod 64)] @ base64 bs"

definition btoa :: "jsstring \<Rightarrow> jsstring option" where
  "btoa s = (if list_all (\<lambda>c. c \<le> 255) s then Some (base64 s) else None)"

text \<open>
  \<open>salt || fresh\<close>: the given salt unless it is missing or the empty string, which
  JavaScript both takes as false.
\<close>

definition salt_or :: "jsstring option \<Rightarrow> jsstring \<Rightarrow> jsstring" where
  "salt_or given fresh = (case given of None \<Rightarrow> fresh | Some s \<Rightarrow> if s = [] then fresh else s)"

text \<open>
  \<open>hashPassword\<close>. Two things come from the platform and are parameters: \<open>sha256\<close>, the
  SHA-256 digest of a string as hexadecimal text (through \<open>crypto.subtle\<close> on the web,
  through the crypto module natively), and \<open>rnd\<close>, the text of the \<open>Math.random()\<close> draw a
  fresh salt is cut from (\<open>toString(36)\<close> on the web and in the fallback, \<open>toString()\<close>
  natively). Any exception inside is rethrown as the one error of the function.
\<close>

definition hashPassword ::
    "platform \<Rightarrow> (jsstring \<Rightarrow> jsstring) \<Rightarrow> jsstring \<Rightarrow> jsstring \<Rightarrow> jsstring option
       \<Rightarrow> security_error + hash_result" where
  "hashPassword os sha256 rnd password salt0 =
     (case os of
        Web \<Rightarrow>
          (let passwordSalt = salt_or salt0 (substring 2 18 rnd) in
           Inr \<lparr>hash = sha256 (password @ passwordSalt), salt = passwordSalt\<rparr>)
      | NativeCrypto \<Rightarrow>
          (let passwordSalt = salt_or salt0 (substring 0 16 (sha256 rnd)) in
           Inr \<lparr>hash = sha256 (password @ passwordSalt), salt = passwordSalt\<rparr>)
      | NativeNoCrypto \<Rightarrow>
          (let passwordSalt = salt_or salt0 (substring 2 18 rnd) in
           case btoa (password @ passwordSalt) of
             None \<Rightarrow> Inl HashingFailed
           | Some h \<Rightarrow> Inr \<lparr>hash = h, salt = passwordSalt\<rparr>))"

text \<open>
  \<open>verifyPassword\<close>: hashes again with the stored salt and compares; an exception of
  \<open>hashPassword\<close> is caught and answered with \<open>false\<close>.
\<close>

definition verifyPassword ::
    "platform \<Rightarrow> (jsstring \<Rightarrow> jsstring) \<Rightarrow> jsstring \<Rightarrow> jsstring \<Rightarrow> jsstring \<Rightarrow> jsstring
       \<Rightarrow> bool" where
  "verifyPassword os sha256 rnd password hash0 salt0 =
     (case hashPassword os sha256 rnd password (Some salt0) of
        Inr r \<Rightarrow> hash r = hash0
      | Inl e \<Rightarrow> False)"

section \<open>Properties of the scanner\<close>

text \<open>Where the codes are pairwise distinct, \<open>find\<close> by code returns the booking itself.\<close>

lemma find_unique:
  "distinct (map f xs) \<Longrightarrow> b \<in> set xs \<Longrightarrow> find (\<lambda>x. f x = f b) xs = Some b"
  by (induction xs) (auto simp: image_iff)

text \<open>The price text determines the price: "free" is shown for the price 0 only.\<close>

lemma priceText_inj: "priceText p = priceText q \<Longrightarrow> p = q"
  by (auto simp: priceText_def split: if_splits)

lemmas door_defs =
  mounted_def door_list_def ticket_confirmed_def ticket_cancelled_def ticket_used_def

text \<open>
  Claim C4. A code that no booking carries as its \<open>qrCode\<close> (compared exactly) is
  classified as an invalid ticket: the result is the error "not in the system", and the
  booking list, with every field of every booking, is what it was before the call.
\<close>

theorem classify_not_found:
  assumes "\<forall>b \<in> set (bookings st). qrCode b \<noteq> code"
  shows "scanResult (processQRCode code st)
           = Some \<lparr>type_r = error, title = InvalidTicket, message = NotInSystem\<rparr>
         \<and> bookings (processQRCode code st) = bookings st"
proof -
  have "find (\<lambda>b. qrCode b = code) (bookings st) = None"
    using assms by (simp add: find_None_iff)
  then show ?thesis
    by (simp add: processQRCode_def)
qed

theorem classify_not_found_witness:
  "''mi3ad-001'' \<notin> set (map qrCode (bookings (mounted door_list)))
   \<and> scanResult (processQRCode ''mi3ad-001'' (mounted door_list))
       = Some \<lparr>type_r = error, title = InvalidTicket, message = NotInSystem\<rparr>
   \<and> bookings (processQRCode ''mi3ad-001'' (mounted door_list)) = door_list"
proof -
  have h: "\<forall>b \<in> set (bookings (mounted door_list)). qrCode b \<noteq> ''mi3ad-001''"
    by (simp add: door_defs)
  have h': "''mi3ad-001'' \<notin> set (map qrCode (bookings (mounted door_list)))"
    by (simp add: door_defs)
  show ?thesis
    using h' classify_not_found [OF h] by (simp only: mounted_def scanner.simps simp_thms)
qed

text \<open>The example list has pairwise distinct codes.\<close>

lemma door_list_distinct: "distinct (map qrCode (bookings (mounted door_list)))"
  by (simp add: door_defs)

text \<open>
  Claim C5. With pairwise distinct codes in the store, scanning the code of a booking
  whose status is \<open>used\<close> gives the warning "ticket already used", whose message
  carries the ticket count and the price of that booking (the message determines both),
  and the booking list is what it was before the call.
\<close>

theorem classify_already_used:
  assumes "distinct (map qrCode (bookings st))" and "b \<in> set (bookings st)"
    and "status b = used"
  shows "scanResult (processQRCode (qrCode b) st)
           = Some \<lparr>type_r = warning, title = UsedTicket,
                   message = UsedBefore (ticketCount b) (priceText (totalPrice b))\<rparr>
         \<and> (\<forall>n p. UsedBefore n (priceText p)
                     = UsedBefore (ticketCount b) (priceText (totalPrice b))
                   \<longrightarrow> n = ticketCount b \<and> p = totalPrice b)
         \<and> bookings (processQRCode (qrCode b) st) = bookings st"
proof -
  have "find (\<lambda>x. qrCode x = qrCode b) (bookings st) = Some b"
    using assms(1,2) by (rule find_unique)
  then show ?thesis
    using assms(3) by (auto simp: processQRCode_def dest: priceText_inj)
qed

theorem classify_already_used_witness:
  "distinct (map qrCode (bookings (mounted door_list)))
   \<and> ticket_used \<in> set (bookings (mounted door_list)) \<and> status ticket_used = used
   \<and> scanResult (processQRCode ''MI3AD-003'' (mounted door_list))
       = Some \<lparr>type_r = warning, title = UsedTicket, message = UsedBefore 3 (Dinars 45)\<rparr>
   \<and> bookings (processQRCode ''MI3AD-003'' (mounted door_list)) = door_list"
proof -
  have h2: "ticket_used \<in> set (bookings (mounted door_list))"
    by (simp add: mounted_def door_list_def)
  have h3: "status ticket_used = used"
    by (simp add: ticket_used_def)
  show ?thesis
    using door_list_distinct h2 h3 classify_already_used [OF door_list_distinct h2 h3]
    by (simp add: mounted_def ticket_used_def priceText_def)
qed

text \<open>
  Claim C6. With pairwise distinct codes in the store, scanning the code of a booking
  whose status is \<open>cancelled\<close> gives the error "ticket cancelled", and the booking list
  is what it was before the call.
\<close>

theorem classify_cancelled:
  assumes "distinct (map qrCode (bookings st))" and "b \<in> set (bookings st)"
    and "status b = cancelled"
  shows "scanResult (processQRCode (qrCode b) st)
           = Some \<lparr>type_r = error, title = CancelledTicket, message = WasCancelled\<rparr>
         \<and> bookings (processQRCode (qrCode b) st) = bookings st"
proof -
  have "find (\<lambda>x. qrCode x = qrCode b) (bookings st) = Some b"
    using assms(1,2) by (rule find_unique)
  then show ?thesis
    using assms(3) by (simp add: processQRCode_def)
qed

theorem classify_cancelled_witness:
  "distinct (map qrCode (bookings (mounted door_list)))
   \<and> ticket_cancelled \<in> set (bookings (mounted door_list))
   \<and> status ticket_cancelled = cancelled
   \<and> scanResult (processQRCode ''X'' (mounted door_list))
       = Some \<lparr>type_r = error, title = CancelledTicket, message = WasCancelled\<rparr>
   \<and> bookings (processQRCode ''X'' (mounted door_list)) = door_list"
proof -
  have h2: "ticket_cancelled \<in> set (bookings (mounted door_list))"
    by (simp add: mounted_def door_list_def)
  have h3: "status ticket_cancelled = cancelled"
    by (simp add: ticket_cancelled_def)
  show ?thesis
    using door_list_distinct h2 h3 classify_cancelled [OF door_list_distinct h2 h3]
    by (simp add: mounted_def ticket_cancelled_def)
qed

text \<open>
  Claim C7. With pairwise distinct codes in the store, scanning the code of a booking
  whose status is \<open>confirmed\<close> gives the success result "valid ticket", whose message
  carries the ticket count and the price of that booking (the message determines both).
  The call writes the flag, the remembered code and the result, and nothing else: the
  booking list is untouched, and marking the ticket as used is left to \<open>confirmEntry\<close>.
\<close>

theorem classify_valid:
  assumes "distinct (map qrCode (bookings st))" and "b \<in> set (bookings st)"
    and "status b = confirmed"
  shows "processQRCode (qrCode b) st
           = st\<lparr>scanned := True, lastScannedCode := qrCode b,
                scanResult := Some \<lparr>type_r = success, title = ValidTicket,
                  message = TicketOk (ticketCount b) (priceText (totalPrice b))\<rparr>\<rparr>
         \<and> (\<forall>n p. TicketOk n (priceText p)
                     = TicketOk (ticketCount b) (priceText (totalPrice b))
                   \<longrightarrow> n = ticketCount b \<and> p = totalPrice b)"
proof -
  have "find (\<lambda>x. qrCode x = qrCode b) (bookings st) = Some b"
    using assms(1,2) by (rule find_unique)
  then show ?thesis
    using assms(3) by (auto simp: processQRCode_def dest: priceText_inj)
qed

theorem classify_valid_witness:
  "distinct (map qrCode (bookings (mounted door_list)))
   \<and> ticket_confirmed \<in> set (bookings (mounted door_list))
   \<and> status ticket_confirmed = confirmed
   \<and> scanResult (processQRCode ''MI3AD-001'' (mounted door_list))
       = Some \<lparr>type_r = success, title = ValidTicket, message = TicketOk 2 Free\<rparr>
   \<and> bookings (processQRCode ''MI3AD-001'' (mounted door_list)) = door_list"
proof -
  have h2: "ticket_confirmed \<in> set (bookings (mounted door_list))"
    by (simp add: mounted_def door_list_def)
  have h3: "status ticket_confirmed = confirmed"
    by (simp add: ticket_confirmed_def)
  show ?thesis
    using door_list_distinct h2 h3 classify_valid [OF door_list_distinct h2 h3]
    by (simp add: mounted_def ticket_confirmed_def priceText_def)
qed

subsection \<open>Reading and writing of the booking list\<close>

lemma processQRCode_bookings: "bookings (processQRCode code st) = bookings st"
  by (simp add: processQRCode_def Let_def split: option.splits)

lemma handleBarCodeScanned_bookings: "bookings (handleBarCodeScanned code st) = bookings st"
  by (simp add: handleBarCodeScanned_def processQRCode_bookings)

lemma resetScanner_bookings: "bookings (resetScanner st) = bookings st"
  by (simp add: resetScanner_def)

lemma scanTimeoutFired_bookings: "bookings (scanTimeoutFired st) = bookings st"
  by (simp add: scanTimeoutFired_def)

lemma processQRCode_result_cong:
  "bookings st' = bookings st
   \<Longrightarrow> scanResult (processQRCode code st') = scanResult (processQRCode code st)"
  by (simp add: processQRCode_def Let_def split: option.splits)

lemma processQRCode_idem: "processQRCode code (processQRCode code st) = processQRCode code st"
  by (simp add: processQRCode_def Let_def split: option.splits)

lemma run_snoc: "run st (evs @ [e]) = step (run st evs) e"
  by (simp add: run_def)

lemma step_no_commit_bookings:
  "\<forall>r. e \<noteq> ConfirmEntry r \<Longrightarrow> bookings (step st e) = bookings st"
proof (cases e)
  case (ConfirmEntry r)
  assume "\<forall>r. e \<noteq> ConfirmEntry r"
  with ConfirmEntry show ?thesis by blast
qed (simp_all add: processQRCode_bookings handleBarCodeScanned_bookings
      resetScanner_bookings scanTimeoutFired_bookings)

lemma run_no_commit_bookings:
  "\<forall>e \<in> set evs. \<forall>r. e \<noteq> ConfirmEntry r \<Longrightarrow> bookings (run st evs) = bookings st"
proof (induction evs rule: rev_induct)
  case Nil
  then show ?case by (simp add: run_def)
next
  case (snoc e evs)
  from snoc.prems have "\<forall>r. e \<noteq> ConfirmEntry r" by simp
  then have "bookings (step (run st evs) e) = bookings (run st evs)"
    by (rule step_no_commit_bookings)
  moreover from snoc have "bookings (run st evs) = bookings st" by simp
  ultimately show ?case by (simp add: run_snoc)
qed

text \<open>
  Claim C8. Classifying never changes the booking list, and it is idempotent: a second
  call with the same code returns the state of the first, and after any handler calls
  that do not confirm an entry (camera events, other codes, resets, timeouts) the same
  code over the same bookings is classified with the identical result.
\<close>

theorem classify_read_only_idempotent:
  "bookings (processQRCode code st) = bookings st
   \<and> processQRCode code (processQRCode code st) = processQRCode code st
   \<and> ((\<forall>e \<in> set evs. \<forall>r. e \<noteq> ConfirmEntry r) \<longrightarrow>
        scanResult (processQRCode code (run (processQRCode code st) evs))
          = scanResult (processQRCode code st)
        \<and> bookings (processQRCode code (run (processQRCode code st) evs)) = bookings st)"
proof (intro conjI impI)
  show "bookings (processQRCode code st) = bookings st"
    by (rule processQRCode_bookings)
  show "processQRCode code (processQRCode code st) = processQRCode code st"
    by (rule processQRCode_idem)
next
  assume h: "\<forall>e \<in> set evs. \<forall>r. e \<noteq> ConfirmEntry r"
  have same: "bookings (run (processQRCode code st) evs) = bookings st"
    using run_no_commit_bookings [OF h, of "processQRCode code st"]
    by (simp only: processQRCode_bookings)
  show "scanResult (processQRCode code (run (processQRCode code st) evs))
          = scanResult (processQRCode code st)"
    using same by (rule processQRCode_result_cong)
  show "bookings (processQRCode code (run (processQRCode code st) evs)) = bookings st"
    using same by (simp only: processQRCode_bookings)
qed

theorem classify_read_only_idempotent_witness:
  "list_all (\<lambda>e. \<forall>r. e \<noteq> ConfirmEntry r) [ResetScanner, ScanTimeout, BarCodeScanned ''X'']
   \<and> scanResult (processQRCode ''MI3AD-001''
         (run (processQRCode ''MI3AD-001'' (mounted door_list))
            [ResetScanner, ScanTimeout, BarCodeScanned ''X'']))
       = Some \<lparr>type_r = success, title = ValidTicket, message = TicketOk 2 Free\<rparr>
   \<and> bookings (processQRCode ''MI3AD-001''
         (run (processQRCode ''MI3AD-001'' (mounted door_list))
            [ResetScanner, ScanTimeout, BarCodeScanned ''X''])) = door_list"
proof -
  have h: "\<forall>e \<in> set [ResetScanner, ScanTimeout, BarCodeScanned ''X'']. \<forall>r. e \<noteq> ConfirmEntry r"
    by simp
  have r: "scanResult (processQRCode ''MI3AD-001'' (mounted door_list))
       = Some \<lparr>type_r = success, title = ValidTicket, message = TicketOk 2 Free\<rparr>"
    by (simp add: processQRCode_def door_defs priceText_def)
  have h': "list_all (\<lambda>e. \<forall>r. e \<noteq> ConfirmEntry r)
      [ResetScanner, ScanTimeout, BarCodeScanned ''X'']"
    by simp
  show ?thesis
    using h h' r classify_read_only_idempotent
      [of "''MI3AD-001''" "mounted door_list" "[ResetScanner, ScanTimeout, BarCodeScanned ''X'']"]
    by (simp only: mounted_def scanner.simps)
qed

subsection \<open>Camera events while a scan is displayed\<close>

text \<open>The handlers of the source's names are those of the current render.\<close>

lemma processQRCode_on_current: "processQRCode_on st data st = processQRCode data st"
  by (simp add: processQRCode_on_def processQRCode_def)

lemma confirmEntry_on_current: "confirmEntry_on st reachable st = confirmEntry reachable st"
  by (simp add: confirmEntry_on_def confirmEntry_def)

lemma handleBarCodeScanned_on_current:
  "handleBarCodeScanned_on st data st = handleBarCodeScanned data st"
  by (simp add: handleBarCodeScanned_on_def handleBarCodeScanned_def processQRCode_on_def
      processQRCode_def)

text \<open>
  The guard of \<open>handleBarCodeScanned\<close> reads the flag of its render and the ref as it is.
\<close>

lemma handleBarCodeScanned_on_ignored:
  "scanned render \<or> data = lastScannedCode st \<Longrightarrow> handleBarCodeScanned_on render data st = st"
  by (simp add: handleBarCodeScanned_on_def)

lemma processQRCode_on_flags:
  "scanned (processQRCode_on render data st)
   \<and> scanTimeoutPending (processQRCode_on render data st) = scanTimeoutPending st"
  by (simp add: processQRCode_on_def Let_def split: option.splits)

lemma confirmEntry_on_reached_flags:
  "scanned (confirmEntry_on render True st) = scanned st
   \<and> scanTimeoutPending (confirmEntry_on render True st) = scanTimeoutPending st"
  by (simp add: confirmEntry_on_def markTicketAsUsed_def split: option.splits)

text \<open>
  While a scan is on display, on the render and in the state, it stays on display
  through every handler call that does not run \<open>resetScanner\<close>.
\<close>

lemma step_on_kept:
  assumes "displayed render" and "displayed st" and "\<not> runs_reset render st e"
  shows "displayed (step_on render st e)"
proof (cases e)
  case (BarCodeScanned d)
  then show ?thesis
    using assms(1,2) by (simp add: displayed_def handleBarCodeScanned_on_ignored)
next
  case (ProcessQRCode d)
  then show ?thesis
    using assms(2) by (simp add: displayed_def processQRCode_on_flags)
next
  case (ConfirmEntry r)
  show ?thesis
  proof (cases r)
    case True
    with ConfirmEntry show ?thesis
      using assms(2) by (simp add: displayed_def confirmEntry_on_reached_flags)
  next
    case False
    with ConfirmEntry assms(3) have "confirmEntry_on render False st = st"
      by (simp add: confirmEntry_on_def split: option.splits)
    with ConfirmEntry False show ?thesis
      using assms(2) by simp
  qed
next
  case ResetScanner
  with assms(3) show ?thesis by simp
next
  case ScanTimeout
  then show ?thesis
    using assms(2) by (simp add: displayed_def scanTimeoutFired_def)
qed

lemma deliveries_snoc: "deliveries hist (evs @ [ev]) = deliver (deliveries hist evs) ev"
  by (simp add: deliveries_def)

lemma deliveries_Cons: "deliveries hist (ev # evs) = deliveries (deliver hist ev) evs"
  by (simp add: deliveries_def)

lemma deliveries_kept:
  assumes "hist \<noteq> []" and "list_all displayed hist" and "no_reset hist evs"
  shows "deliveries hist evs \<noteq> [] \<and> list_all displayed (deliveries hist evs)"
  using assms
proof (induction evs arbitrary: hist)
  case Nil
  then show ?case by (simp add: deliveries_def)
next
  case (Cons ev evs)
  obtain age e where ev: "ev = (age, e)" by (cases ev)
  obtain st past where h: "hist = st # past"
    using Cons.prems(1) by (cases hist) auto
  let ?r = "(st # past) ! min age (length past)"
  have "min age (length past) < length (st # past)" by simp
  then have "?r \<in> set (st # past)" by (rule nth_mem)
  then have r: "displayed ?r"
    using Cons.prems(2) h by (simp only: list_all_iff)
  have s: "displayed st"
    using Cons.prems(2) h by simp
  have nr: "\<not> runs_reset ?r st e" and rest: "no_reset (deliver (st # past) (age, e)) evs"
    using Cons.prems(3) h ev by simp_all
  have "displayed (step_on ?r st e)"
    using r s nr by (rule step_on_kept)
  then have "deliver hist ev \<noteq> []" and "list_all displayed (deliver hist ev)"
    using Cons.prems(2) h ev by simp_all
  moreover have "no_reset (deliver hist ev) evs"
    using rest h ev by simp
  ultimately have "deliveries (deliver hist ev) evs \<noteq> []
      \<and> list_all displayed (deliveries (deliver hist ev) evs)"
    by (rule Cons.IH)
  then show ?case by (simp add: deliveries_Cons)
qed

lemma camera_scan_displayed:
  assumes "\<not> scanned render" and "data \<noteq> lastScannedCode st"
  shows "displayed (handleBarCodeScanned_on render data st)"
  using assms by (simp add: handleBarCodeScanned_on_def displayed_def processQRCode_on_flags)

lemma displayed_event_dropped:
  assumes "displayed S" and "no_reset [S] evs"
  shows "scanned (hd (deliveries [S] evs))
         \<and> hd (deliveries [S] (evs @ [(age, BarCodeScanned d)])) = hd (deliveries [S] evs)"
proof -
  have inv: "deliveries [S] evs \<noteq> [] \<and> list_all displayed (deliveries [S] evs)"
    using assms by (intro deliveries_kept) simp_all
  then obtain st past where h: "deliveries [S] evs = st # past"
    by (cases "deliveries [S] evs") auto
  have "min age (length past) < length (st # past)" by simp
  then have "(st # past) ! min age (length past) \<in> set (st # past)"
    by (rule nth_mem)
  then have "displayed ((st # past) ! min age (length past))"
    using inv h by (simp only: list_all_iff)
  then have "handleBarCodeScanned_on ((st # past) ! min age (length past)) d st = st"
    by (simp add: displayed_def handleBarCodeScanned_on_ignored)
  moreover have "scanned st"
    using inv h by (simp add: displayed_def)
  ultimately show ?thesis
    by (simp add: deliveries_snoc h)
qed

lemma direct_scan_displayed:
  assumes "\<not> scanTimeoutPending st"
  shows "displayed (processQRCode_on render data st)"
  using assms by (simp add: displayed_def processQRCode_on_flags)

text \<open>The valid ticket of the example list, scanned on the mounted screen.\<close>

lemma scan_of_valid_ticket:
  "handleBarCodeScanned_on (mounted door_list) ''MI3AD-001'' (mounted door_list)
     = (mounted door_list)
         \<lparr>scanned := True, lastScannedCode := ''MI3AD-001'',
          scanResult := Some \<lparr>type_r = success, title = ValidTicket,
                                message = TicketOk 2 Free\<rparr>\<rparr>"
  by (simp add: handleBarCodeScanned_on_def processQRCode_on_def door_defs priceText_def)

text \<open>
  Claim C9, as the code has it. A camera event is dropped, leaving the whole screen
  state as it is and so classifying nothing, when the scanned flag is set on the render
  whose handler receives it, whatever the code, and on any render when its code equals
  the remembered code. Once a scan has been processed, from a camera event or from a
  code handed to \<open>processQRCode\<close> while no reset timeout is pending, the flag is set
  and stays set through every sequence of handler calls in which \<open>resetScanner\<close> does
  not run, and a camera event after it, with any code, that reaches the handler of a
  render made since the scan is dropped. The history starts at the scan, so the renders
  it offers are those made since. \<open>resetScanner\<close> is what clears the flag.
\<close>

theorem scans_ignored_until_reset:
  "(scanned render \<or> data = lastScannedCode st
      \<longrightarrow> handleBarCodeScanned_on render data st = st)
   \<and> ((S = handleBarCodeScanned_on render0 data0 st0
          \<and> \<not> scanned render0 \<and> data0 \<noteq> lastScannedCode st0
        \<or> S = processQRCode_on render0 data0 st0 \<and> \<not> scanTimeoutPending st0)
       \<and> no_reset [S] evs
      \<longrightarrow> scanned S
          \<and> scanned (hd (deliveries [S] evs))
          \<and> hd (deliveries [S] (evs @ [(age, BarCodeScanned code)]))
              = hd (deliveries [S] evs))
   \<and> \<not> scanned (resetScanner st)"
proof (intro conjI impI)
  show "handleBarCodeScanned_on render data st = st"
    if "scanned render \<or> data = lastScannedCode st"
    using that by (rule handleBarCodeScanned_on_ignored)
  show "\<not> scanned (resetScanner st)"
    by (simp add: resetScanner_def)
next
  assume a: "(S = handleBarCodeScanned_on render0 data0 st0
          \<and> \<not> scanned render0 \<and> data0 \<noteq> lastScannedCode st0
        \<or> S = processQRCode_on render0 data0 st0 \<and> \<not> scanTimeoutPending st0)
       \<and> no_reset [S] evs"
  from a have "S = handleBarCodeScanned_on render0 data0 st0
          \<and> \<not> scanned render0 \<and> data0 \<noteq> lastScannedCode st0
        \<or> S = processQRCode_on render0 data0 st0 \<and> \<not> scanTimeoutPending st0"
    by (rule conjunct1)
  then have d: "displayed S"
  proof
    assume "S = handleBarCodeScanned_on render0 data0 st0
          \<and> \<not> scanned render0 \<and> data0 \<noteq> lastScannedCode st0"
    then show ?thesis by (simp add: camera_scan_displayed)
  next
    assume "S = processQRCode_on render0 data0 st0 \<and> \<not> scanTimeoutPending st0"
    then show ?thesis by (simp add: direct_scan_displayed)
  qed
  from a have n: "no_reset [S] evs"
    by (rule conjunct2)
  note t = displayed_event_dropped [OF d n]
  show "scanned S"
    using d by (simp add: displayed_def)
  show "scanned (hd (deliveries [S] evs))"
    using t by (rule conjunct1)
  show "hd (deliveries [S] (evs @ [(age, BarCodeScanned code)])) = hd (deliveries [S] evs)"
    using t by (rule conjunct2)
qed

theorem scans_ignored_until_reset_witness:
  "(scanned (handleBarCodeScanned_on (mounted door_list) ''MI3AD-001'' (mounted door_list))
      \<or> ''X'' = lastScannedCode
           (handleBarCodeScanned_on (mounted door_list) ''MI3AD-001'' (mounted door_list)))
   \<and> \<not> scanned (mounted door_list) \<and> ''MI3AD-001'' \<noteq> lastScannedCode (mounted door_list)
   \<and> no_reset [handleBarCodeScanned_on (mounted door_list) ''MI3AD-001'' (mounted door_list)]
        [(0, BarCodeScanned ''X''), (1, ConfirmEntry True), (0, ScanTimeout),
         (0, ConfirmEntry False)]
   \<and> handleBarCodeScanned_on
        (handleBarCodeScanned_on (mounted door_list) ''MI3AD-001'' (mounted door_list)) ''X''
        (handleBarCodeScanned_on (mounted door_list) ''MI3AD-001'' (mounted door_list))
       = handleBarCodeScanned_on (mounted door_list) ''MI3AD-001'' (mounted door_list)
   \<and> scanned (hd (deliveries
          [handleBarCodeScanned_on (mounted door_list) ''MI3AD-001'' (mounted door_list)]
          [(0, BarCodeScanned ''X''), (1, ConfirmEntry True), (0, ScanTimeout),
           (0, ConfirmEntry False)]))
   \<and> hd (deliveries
          [handleBarCodeScanned_on (mounted door_list) ''MI3AD-001'' (mounted door_list)]
          ([(0, BarCodeScanned ''X''), (1, ConfirmEntry True), (0, ScanTimeout),
            (0, ConfirmEntry False)] @ [(2, BarCodeScanned ''MI3AD-003'')]))
       = hd (deliveries
          [handleBarCodeScanned_on (mounted door_list) ''MI3AD-001'' (mounted door_list)]
          [(0, BarCodeScanned ''X''), (1, ConfirmEntry True), (0, ScanTimeout),
           (0, ConfirmEntry False)])"
proof -
  let ?S = "handleBarCodeScanned_on (mounted door_list) ''MI3AD-001'' (mounted door_list)"
  let ?evs = "[(0::nat, BarCodeScanned ''X''), (1, ConfirmEntry True), (0, ScanTimeout),
               (0, ConfirmEntry False)]"
  have h1: "scanned ?S \<or> ''X'' = lastScannedCode ?S"
    by (simp add: scan_of_valid_ticket)
  have a1: "\<not> scanned (mounted door_list)"
    and a2: "''MI3AD-001'' \<noteq> lastScannedCode (mounted door_list)"
    by (simp_all add: mounted_def)
  have a3: "no_reset [?S] ?evs"
    by code_simp
  have h2: "(?S = handleBarCodeScanned_on (mounted door_list) ''MI3AD-001'' (mounted door_list)
          \<and> \<not> scanned (mounted door_list) \<and> ''MI3AD-001'' \<noteq> lastScannedCode (mounted door_list)
        \<or> ?S = processQRCode_on (mounted door_list) ''MI3AD-001'' (mounted door_list)
          \<and> \<not> scanTimeoutPending (mounted door_list))
       \<and> no_reset [?S] ?evs"
    using a1 a2 a3 by blast
  note t = scans_ignored_until_reset
    [where render = ?S and data = "''X''" and st = ?S and S = ?S
       and render0 = "mounted door_list" and data0 = "''MI3AD-001''" and st0 = "mounted door_list"
       and evs = ?evs and age = 2 and code = "''MI3AD-003''"]
  have c1: "handleBarCodeScanned_on ?S ''X'' ?S = ?S"
    using t [THEN conjunct1] h1 by (rule mp)
  note c2 = t [THEN conjunct2, THEN conjunct1, THEN mp, OF h2]
  show ?thesis
    by (intro conjI h1 a1 a2 a3 c1 c2 [THEN conjunct2, THEN conjunct1]
        c2 [THEN conjunct2, THEN conjunct2])
qed

text \<open>
  Two camera events that reach the handler of the same render, the one before the first
  scan: the first is processed and sets the flag; the second, with another code, is
  expected to be ignored, but that render still holds the flag as clear, so it is
  classified and replaces the result and the remembered code. No reset ran in between.
\<close>

theorem stale_render_scan_counterexample:
  "scanned (hd (deliveries [mounted door_list] [(0, BarCodeScanned ''MI3AD-001'')]))
   \<and> scanResult (hd (deliveries [mounted door_list] [(0, BarCodeScanned ''MI3AD-001'')]))
       = Some \<lparr>type_r = success, title = ValidTicket, message = TicketOk 2 Free\<rparr>
   \<and> scanResult (hd (deliveries [mounted door_list]
                        [(0, BarCodeScanned ''MI3AD-001''), (1, BarCodeScanned ''X'')]))
       = Some \<lparr>type_r = error, title = CancelledTicket, message = WasCancelled\<rparr>
   \<and> lastScannedCode (hd (deliveries [mounted door_list]
                        [(0, BarCodeScanned ''MI3AD-001''), (1, BarCodeScanned ''X'')]))
       = ''X''"
  by (simp add: deliveries_def handleBarCodeScanned_on_def processQRCode_on_def door_defs
      priceText_def)

subsection \<open>Status changes\<close>

lemma redeemed_or_same_refl: "redeemed_or_same b b"
  by (simp add: redeemed_or_same_def)

lemma redeemed_or_same_trans:
  "redeemed_or_same a b \<Longrightarrow> redeemed_or_same b c \<Longrightarrow> redeemed_or_same a c"
  by (auto simp: redeemed_or_same_def)

lemma redeemed_or_same_id: "redeemed_or_same b b' \<Longrightarrow> id_b b' = id_b b"
  by (auto simp: redeemed_or_same_def)

lemma redeemed_list_refl: "list_all2 redeemed_or_same bs bs"
  by (simp add: list_all2_same redeemed_or_same_refl)

lemma redeemed_list_ids:
  "list_all2 redeemed_or_same bs bs' \<Longrightarrow> map id_b bs' = map id_b bs"
  by (induction rule: list_all2_induct) (simp_all add: redeemed_or_same_id)

lemma mark_redeems:
  assumes "distinct (map id_b bs)" and "bk \<in> set bs" and "status bk = confirmed"
  shows "list_all2 redeemed_or_same bs
           (map (\<lambda>b. if id_b b = id_b bk then b\<lparr>status := used\<rparr> else b) bs)"
proof -
  have inj: "inj_on id_b (set bs)"
    using assms(1) by (simp add: distinct_map)
  have "redeemed_or_same x (if id_b x = id_b bk then x\<lparr>status := used\<rparr> else x)"
    if "x \<in> set bs" for x
  proof (cases "id_b x = id_b bk")
    case True
    then have "x = bk"
      using inj that assms(2) by (simp add: inj_on_def)
    then show ?thesis
      using assms(3) by (simp add: redeemed_or_same_def)
  next
    case False
    then show ?thesis by (simp add: redeemed_or_same_refl)
  qed
  then show ?thesis
    by (simp only: list_all2_map2 list_all2_same) blast
qed

lemma confirmEntry_redeems:
  assumes "distinct (map id_b (bookings st))"
  shows "list_all2 redeemed_or_same (bookings st) (bookings (confirmEntry r st))"
proof (cases "find (\<lambda>b. qrCode b = lastScannedCode st) (bookings st)")
  case None
  then show ?thesis
    by (simp add: confirmEntry_def redeemed_list_refl)
next
  case (Some bk)
  then have mem: "bk \<in> set (bookings st)"
    by (auto simp: find_Some_iff)
  show ?thesis
  proof (cases "status bk = confirmed \<and> r")
    case True
    then have "bookings (confirmEntry r st)
        = map (\<lambda>b. if id_b b = id_b bk then b\<lparr>status := used\<rparr> else b) (bookings st)"
      using Some by (simp add: confirmEntry_def markTicketAsUsed_def)
    then show ?thesis
      using mark_redeems [OF assms mem] True by simp
  next
    case False
    then have "bookings (confirmEntry r st) = bookings st"
      using Some by (auto simp: confirmEntry_def markTicketAsUsed_def resetScanner_def)
    then show ?thesis
      by (simp add: redeemed_list_refl)
  qed
qed

lemma step_redeems:
  assumes "distinct (map id_b (bookings st))"
  shows "list_all2 redeemed_or_same (bookings st) (bookings (step st e))"
proof (cases e)
  case (ConfirmEntry r)
  then show ?thesis
    using confirmEntry_redeems [OF assms] by simp
qed (simp_all add: processQRCode_bookings handleBarCodeScanned_bookings
      resetScanner_bookings scanTimeoutFired_bookings redeemed_list_refl)

lemma run_redeems:
  assumes "distinct (map id_b (bookings st))"
  shows "list_all2 redeemed_or_same (bookings st) (bookings (run st evs))"
proof (induction evs rule: rev_induct)
  case Nil
  show ?case by (simp add: run_def redeemed_list_refl)
next
  case (snoc e evs)
  have "map id_b (bookings (run st evs)) = map id_b (bookings st)"
    using snoc.IH by (rule redeemed_list_ids)
  then have "distinct (map id_b (bookings (run st evs)))"
    using assms by simp
  then have "list_all2 redeemed_or_same (bookings (run st evs))
               (bookings (step (run st evs) e))"
    by (rule step_redeems)
  with snoc.IH have "list_all2 redeemed_or_same (bookings st)
               (bookings (step (run st evs) e))"
    by (rule list_all2_trans [rotated]) (rule redeemed_or_same_trans)
  then show ?case by (simp only: run_snoc)
qed

text \<open>
  Claim C3. Over a store whose booking ids are pairwise distinct, after any sequence of
  handler calls (scans, manual codes, confirmations with the store reached or not,
  resets, timeouts) every booking is either exactly what it was or was \<open>confirmed\<close>
  and is now \<open>used\<close> with every other field kept. In particular a booking that is
  \<open>used\<close> or \<open>cancelled\<close> is never changed.
\<close>

theorem status_monotonic:
  assumes "distinct (map id_b (bookings st))"
  shows "list_all2 redeemed_or_same (bookings st) (bookings (run st evs))
         \<and> length (bookings (run st evs)) = length (bookings st)
         \<and> (\<forall>i < length (bookings st).
               status (bookings st ! i) \<noteq> confirmed
               \<longrightarrow> bookings (run st evs) ! i = bookings st ! i)"
proof -
  have all: "list_all2 redeemed_or_same (bookings st) (bookings (run st evs))"
    using assms by (rule run_redeems)
  then have len: "length (bookings (run st evs)) = length (bookings st)"
    by (simp add: list_all2_lengthD)
  have "bookings (run st evs) ! i = bookings st ! i"
    if "i < length (bookings st)" and "status (bookings st ! i) \<noteq> confirmed" for i
  proof -
    have "redeemed_or_same (bookings st ! i) (bookings (run st evs) ! i)"
      using all that(1) by (rule list_all2_nthD)
    then show ?thesis
      using that(2) by (simp add: redeemed_or_same_def)
  qed
  with all len show ?thesis by blast
qed

theorem status_monotonic_witness:
  "distinct (map id_b (bookings (mounted door_list)))
   \<and> bookings (run (mounted door_list)
        [BarCodeScanned ''MI3AD-001'', ConfirmEntry True, ResetScanner,
         ProcessQRCode ''X'', ConfirmEntry True, ResetScanner,
         ProcessQRCode ''MI3AD-003'', ConfirmEntry True, ScanTimeout,
         BarCodeScanned ''MI3AD-001'', ConfirmEntry False])
       = [ticket_confirmed\<lparr>status := used\<rparr>, ticket_cancelled, ticket_used]
   \<and> list_all2 redeemed_or_same door_list
        (bookings (run (mounted door_list)
        [BarCodeScanned ''MI3AD-001'', ConfirmEntry True, ResetScanner,
         ProcessQRCode ''X'', ConfirmEntry True, ResetScanner,
         ProcessQRCode ''MI3AD-003'', ConfirmEntry True, ScanTimeout,
         BarCodeScanned ''MI3AD-001'', ConfirmEntry False]))"
proof -
  have h: "distinct (map id_b (bookings (mounted door_list)))"
    by (simp add: door_defs)
  have r: "bookings (run (mounted door_list)
        [BarCodeScanned ''MI3AD-001'', ConfirmEntry True, ResetScanner,
         ProcessQRCode ''X'', ConfirmEntry True, ResetScanner,
         ProcessQRCode ''MI3AD-003'', ConfirmEntry True, ScanTimeout,
         BarCodeScanned ''MI3AD-001'', ConfirmEntry False])
       = [ticket_confirmed\<lparr>status := used\<rparr>, ticket_cancelled, ticket_used]"
    by (simp add: run_def handleBarCodeScanned_def processQRCode_def confirmEntry_def
        markTicketAsUsed_def resetScanner_def scanTimeoutFired_def door_defs)
  have "list_all2 redeemed_or_same (bookings (mounted door_list))
        (bookings (run (mounted door_list)
        [BarCodeScanned ''MI3AD-001'', ConfirmEntry True, ResetScanner,
         ProcessQRCode ''X'', ConfirmEntry True, ResetScanner,
         ProcessQRCode ''MI3AD-003'', ConfirmEntry True, ScanTimeout,
         BarCodeScanned ''MI3AD-001'', ConfirmEntry False]))"
    using status_monotonic [OF h] by (rule conjunct1)
  then show ?thesis
    using h r by (simp only: mounted_def scanner.simps simp_thms)
qed

subsection \<open>Confirming an entry\<close>

lemma find_mark:
  "find (\<lambda>x. qrCode x = c) (map (\<lambda>x. if id_b x = i then x\<lparr>status := used\<rparr> else x) bs)
     = map_option (\<lambda>x. if id_b x = i then x\<lparr>status := used\<rparr> else x)
         (find (\<lambda>x. qrCode x = c) bs)"
  by (induction bs) simp_all

lemma confirmEntry_success:
  assumes "find (\<lambda>x. qrCode x = lastScannedCode st) (bookings st) = Some b"
    and "status b = confirmed"
  shows "confirmEntry True st
           = st\<lparr>bookings := map (\<lambda>x. if id_b x = id_b b then x\<lparr>status := used\<rparr> else x)
                               (bookings st),
                alerts := alerts st @ [EntryConfirmed]\<rparr>"
  using assms by (simp add: confirmEntry_def markTicketAsUsed_def)

lemma confirmEntry_unreachable:
  assumes "find (\<lambda>x. qrCode x = lastScannedCode st) (bookings st) = Some b"
    and "status b = confirmed"
  shows "confirmEntry False st = resetScanner (st\<lparr>alerts := alerts st @ [EntryFailed]\<rparr>)"
  using assms by (simp add: confirmEntry_def markTicketAsUsed_def)

lemma confirmEntry_silent:
  assumes "\<forall>x. find (\<lambda>x. qrCode x = lastScannedCode st) (bookings st) = Some x
             \<longrightarrow> status x \<noteq> confirmed"
  shows "confirmEntry reachable st = st"
  using assms by (simp add: confirmEntry_def split: option.splits)

lemma confirmEntry_found_after:
  assumes "find (\<lambda>x. qrCode x = lastScannedCode st) (bookings st) = Some b"
    and "status b = confirmed"
  shows "find (\<lambda>x. qrCode x = lastScannedCode st) (bookings (confirmEntry True st))
           = Some (b\<lparr>status := used\<rparr>)"
  using assms by (simp add: confirmEntry_success [OF assms] find_mark)

text \<open>The valid ticket of the example list, entered and then confirmed.\<close>

lemma valid_scan:
  "processQRCode ''MI3AD-001'' (mounted door_list)
     = (mounted door_list)
         \<lparr>scanned := True, lastScannedCode := ''MI3AD-001'',
          scanResult := Some \<lparr>type_r = success, title = ValidTicket,
                                message = TicketOk 2 Free\<rparr>\<rparr>"
  by (simp add: processQRCode_def door_defs priceText_def)

lemma valid_scan_confirmed:
  "confirmEntry True (processQRCode ''MI3AD-001'' (mounted door_list))
     = (processQRCode ''MI3AD-001'' (mounted door_list))
         \<lparr>bookings := [ticket_confirmed\<lparr>status := used\<rparr>, ticket_cancelled, ticket_used],
          alerts := [EntryConfirmed]\<rparr>"
  by (simp add: confirmEntry_def markTicketAsUsed_def processQRCode_def door_defs)

text \<open>The state after the valid ticket was entered and confirmed once.\<close>

lemma valid_scan_confirmed_state:
  "confirmEntry True (processQRCode ''MI3AD-001'' (mounted door_list))
     = \<lparr>bookings = [ticket_confirmed\<lparr>status := used\<rparr>, ticket_cancelled, ticket_used],
        scanned = True,
        scanResult = Some \<lparr>type_r = success, title = ValidTicket, message = TicketOk 2 Free\<rparr>,
        manualQRCode = [], lastScannedCode = ''MI3AD-001'', scanTimeoutPending = False,
        alerts = [EntryConfirmed]\<rparr>"
  by (simp add: confirmEntry_def markTicketAsUsed_def processQRCode_def door_defs priceText_def)

text \<open>
  An attempt whose render does not show the designated booking as \<open>confirmed\<close> does
  nothing, and so does any number of them.
\<close>

lemma confirmEntry_on_silent:
  assumes "\<forall>x. find (\<lambda>x. qrCode x = lastScannedCode st) (bookings render) = Some x
             \<longrightarrow> status x \<noteq> confirmed"
  shows "confirmEntry_on render reachable st = st"
  using assms by (simp add: confirmEntry_on_def split: option.splits)

lemma attempts_silent:
  assumes "\<forall>r \<in> set rs. \<forall>x. find (\<lambda>x. qrCode x = lastScannedCode st) (bookings r) = Some x
             \<longrightarrow> status x \<noteq> confirmed"
  shows "attempts rs st = st"
  using assms
proof (induction rs)
  case Nil
  show ?case by (simp add: attempts_def)
next
  case (Cons r rs)
  then have "confirmEntry_on r True st = st"
    by (intro confirmEntry_on_silent) simp
  moreover from Cons have "attempts rs st = st" by simp
  ultimately show ?case by (simp add: attempts_def)
qed

lemma attempts_Cons: "attempts (r # rs) st = attempts rs (confirmEntry_on r True st)"
  by (simp add: attempts_def)

text \<open>
  Claim C1, as the code has it. Take a screen whose remembered code designates a
  \<open>confirmed\<close> booking, and \<open>1 + length rs\<close> confirmation attempts that reach the
  store: the first on the current render, every later one on a render that shows the
  booking list as the first attempt left it. The first attempt marks the booking as
  used and raises the confirmation alert; every later attempt changes nothing and
  raises no alert, so there is exactly one confirmation and the booking is \<open>used\<close>.
  The code has no result for an attempt that comes too late.
\<close>

theorem single_redemption:
  assumes "find (\<lambda>x. qrCode x = lastScannedCode st) (bookings st) = Some b"
    and "status b = confirmed"
    and "\<forall>r \<in> set rs. bookings r = bookings (confirmEntry_on st True st)"
  shows "attempts (st # rs) st = confirmEntry_on st True st
         \<and> alerts (attempts (st # rs) st) = alerts st @ [EntryConfirmed]
         \<and> find (\<lambda>x. qrCode x = lastScannedCode st) (bookings (attempts (st # rs) st))
             = Some (b\<lparr>status := used\<rparr>)"
proof -
  let ?s1 = "confirmEntry_on st True st"
  have s1: "?s1 = confirmEntry True st"
    by (rule confirmEntry_on_current)
  have al: "alerts ?s1 = alerts st @ [EntryConfirmed]"
    and last: "lastScannedCode ?s1 = lastScannedCode st"
    by (simp_all add: s1 confirmEntry_success [OF assms(1,2)])
  have found: "find (\<lambda>x. qrCode x = lastScannedCode st) (bookings ?s1)
                 = Some (b\<lparr>status := used\<rparr>)"
    unfolding s1 using assms(1,2) by (rule confirmEntry_found_after)
  have "\<forall>r \<in> set rs. \<forall>x. find (\<lambda>x. qrCode x = lastScannedCode ?s1) (bookings r) = Some x
             \<longrightarrow> status x \<noteq> confirmed"
  proof (intro ballI allI impI)
    fix r x
    assume "r \<in> set rs"
      and "find (\<lambda>x. qrCode x = lastScannedCode ?s1) (bookings r) = Some x"
    then have "x = b\<lparr>status := used\<rparr>"
      using assms(3) found by (simp add: last)
    then show "status x \<noteq> confirmed" by simp
  qed
  then have "attempts rs ?s1 = ?s1"
    by (rule attempts_silent)
  then have "attempts (st # rs) st = ?s1"
    by (simp only: attempts_Cons)
  then show ?thesis
    using al found by (simp only: simp_thms)
qed

theorem single_redemption_witness:
  "find (\<lambda>x. qrCode x = lastScannedCode (processQRCode ''MI3AD-001'' (mounted door_list)))
      (bookings (processQRCode ''MI3AD-001'' (mounted door_list))) = Some ticket_confirmed
   \<and> status ticket_confirmed = confirmed
   \<and> list_all (\<lambda>r. bookings r = bookings (confirmEntry_on
          (processQRCode ''MI3AD-001'' (mounted door_list)) True
          (processQRCode ''MI3AD-001'' (mounted door_list))))
        [confirmEntry True (processQRCode ''MI3AD-001'' (mounted door_list)),
         confirmEntry True (processQRCode ''MI3AD-001'' (mounted door_list))]
   \<and> alerts (attempts
        [processQRCode ''MI3AD-001'' (mounted door_list),
         confirmEntry True (processQRCode ''MI3AD-001'' (mounted door_list)),
         confirmEntry True (processQRCode ''MI3AD-001'' (mounted door_list))]
        (processQRCode ''MI3AD-001'' (mounted door_list)))
       = [EntryConfirmed]
   \<and> bookings (attempts
        [processQRCode ''MI3AD-001'' (mounted door_list),
         confirmEntry True (processQRCode ''MI3AD-001'' (mounted door_list)),
         confirmEntry True (processQRCode ''MI3AD-001'' (mounted door_list))]
        (processQRCode ''MI3AD-001'' (mounted door_list)))
       = [ticket_confirmed\<lparr>status := used\<rparr>, ticket_cancelled, ticket_used]"
proof -
  let ?s = "processQRCode ''MI3AD-001'' (mounted door_list)"
  have h1: "find (\<lambda>x. qrCode x = lastScannedCode ?s) (bookings ?s) = Some ticket_confirmed"
    by (simp add: valid_scan) (simp add: door_defs)
  have h2: "status ticket_confirmed = confirmed"
    by (simp add: ticket_confirmed_def)
  have h3: "\<forall>r \<in> set [confirmEntry True ?s, confirmEntry True ?s].
              bookings r = bookings (confirmEntry_on ?s True ?s)"
    by (simp add: confirmEntry_on_current)
  have h3': "list_all (\<lambda>r. bookings r = bookings (confirmEntry_on ?s True ?s))
               [confirmEntry True ?s, confirmEntry True ?s]"
    using h3 by (simp only: list_all_iff)
  have al: "alerts ?s = []"
    by (simp add: valid_scan) (simp add: mounted_def)
  note t = single_redemption [OF h1 h2 h3]
  have c1: "alerts (attempts [?s, confirmEntry True ?s, confirmEntry True ?s] ?s)
              = [EntryConfirmed]"
    using t [THEN conjunct2, THEN conjunct1] by (simp only: al append_Nil)
  have c2: "bookings (attempts [?s, confirmEntry True ?s, confirmEntry True ?s] ?s)
              = [ticket_confirmed\<lparr>status := used\<rparr>, ticket_cancelled, ticket_used]"
    by (simp only: t [THEN conjunct1] confirmEntry_on_current) (simp add: valid_scan_confirmed)
  show ?thesis
    by (intro conjI h1 h2 h3' c1 c2)
qed

text \<open>
  Without the condition on the renders the count is not kept: two attempts that reach
  the handler of one and the same render both read the booking as \<open>confirmed\<close>, and
  both raise the confirmation alert.
\<close>

lemma same_render_attempts:
  assumes "find (\<lambda>x. qrCode x = lastScannedCode st) (bookings st) = Some b"
    and "status b = confirmed"
  shows "alerts (attempts [st, st] st) = alerts st @ [EntryConfirmed, EntryConfirmed]"
  using assms by (simp add: attempts_def confirmEntry_on_def markTicketAsUsed_def)

text \<open>
  Two attempts against the same confirmed booking, the second on the next render: the
  second one is expected to observe that it lost the race, but it raises nothing and
  leaves the state of the first.
\<close>

theorem double_commit_counterexample:
  "alerts (confirmEntry True (processQRCode ''MI3AD-001'' (mounted door_list)))
     = [EntryConfirmed]
   \<and> alerts (confirmEntry True (confirmEntry True
        (processQRCode ''MI3AD-001'' (mounted door_list)))) = [EntryConfirmed]
   \<and> confirmEntry True (confirmEntry True (processQRCode ''MI3AD-001'' (mounted door_list)))
       = confirmEntry True (processQRCode ''MI3AD-001'' (mounted door_list))"
  by (simp add: confirmEntry_def markTicketAsUsed_def processQRCode_def door_defs)

text \<open>
  Claim C2, as the code has it. \<open>confirmEntry\<close> re-reads the booking that carries the
  remembered code. If its status is \<open>confirmed\<close> and the store is reached, the status
  becomes \<open>used\<close> and the confirmation alert is raised; if the store call fails, the
  failure alert is raised and the scanner is reset. If no booking is found, or the
  status is not \<open>confirmed\<close>, the call does nothing at all: no alert, no result and
  no change of state.
\<close>

theorem confirmEntry_outcomes:
  "(find (\<lambda>x. qrCode x = lastScannedCode st) (bookings st) = Some b \<and> status b = confirmed
      \<longrightarrow> confirmEntry True st
            = st\<lparr>bookings := map (\<lambda>x. if id_b x = id_b b then x\<lparr>status := used\<rparr> else x)
                                (bookings st),
                 alerts := alerts st @ [EntryConfirmed]\<rparr>
          \<and> find (\<lambda>x. qrCode x = lastScannedCode st) (bookings (confirmEntry True st))
              = Some (b\<lparr>status := used\<rparr>)
          \<and> confirmEntry False st = resetScanner (st\<lparr>alerts := alerts st @ [EntryFailed]\<rparr>))
   \<and> ((\<forall>x. find (\<lambda>x. qrCode x = lastScannedCode st') (bookings st') = Some x
              \<longrightarrow> status x \<noteq> confirmed)
      \<longrightarrow> confirmEntry reachable st' = st')"
proof (intro conjI impI)
  assume a: "find (\<lambda>x. qrCode x = lastScannedCode st) (bookings st) = Some b
             \<and> status b = confirmed"
  then have f: "find (\<lambda>x. qrCode x = lastScannedCode st) (bookings st) = Some b"
    and c: "status b = confirmed"
    by blast+
  show "confirmEntry True st
            = st\<lparr>bookings := map (\<lambda>x. if id_b x = id_b b then x\<lparr>status := used\<rparr> else x)
                                (bookings st),
                 alerts := alerts st @ [EntryConfirmed]\<rparr>"
    using f c by (rule confirmEntry_success)
  show "find (\<lambda>x. qrCode x = lastScannedCode st) (bookings (confirmEntry True st))
              = Some (b\<lparr>status := used\<rparr>)"
    using f c by (rule confirmEntry_found_after)
  show "confirmEntry False st = resetScanner (st\<lparr>alerts := alerts st @ [EntryFailed]\<rparr>)"
    using f c by (rule confirmEntry_unreachable)
next
  assume "\<forall>x. find (\<lambda>x. qrCode x = lastScannedCode st') (bookings st') = Some x
              \<longrightarrow> status x \<noteq> confirmed"
  then show "confirmEntry reachable st' = st'"
    by (rule confirmEntry_silent)
qed

theorem confirmEntry_outcomes_witness:
  "find (\<lambda>x. qrCode x = lastScannedCode (processQRCode ''MI3AD-001'' (mounted door_list)))
      (bookings (processQRCode ''MI3AD-001'' (mounted door_list))) = Some ticket_confirmed
   \<and> status ticket_confirmed = confirmed
   \<and> find (\<lambda>x. qrCode x = lastScannedCode (processQRCode ''X'' (mounted door_list)))
      (bookings (processQRCode ''X'' (mounted door_list))) = Some ticket_cancelled
   \<and> status ticket_cancelled \<noteq> confirmed
   \<and> bookings (confirmEntry True (processQRCode ''MI3AD-001'' (mounted door_list)))
       = [ticket_confirmed\<lparr>status := used\<rparr>, ticket_cancelled, ticket_used]
   \<and> alerts (confirmEntry True (processQRCode ''MI3AD-001'' (mounted door_list)))
       = [EntryConfirmed]
   \<and> confirmEntry False (processQRCode ''MI3AD-001'' (mounted door_list))
       = resetScanner ((processQRCode ''MI3AD-001'' (mounted door_list))
                         \<lparr>alerts := [EntryFailed]\<rparr>)
   \<and> confirmEntry True (processQRCode ''X'' (mounted door_list))
       = processQRCode ''X'' (mounted door_list)"
proof -
  have h1: "find (\<lambda>x. qrCode x = lastScannedCode (processQRCode ''MI3AD-001'' (mounted door_list)))
      (bookings (processQRCode ''MI3AD-001'' (mounted door_list))) = Some ticket_confirmed
      \<and> status ticket_confirmed = confirmed"
    by (simp add: processQRCode_def door_defs)
  have f2: "find (\<lambda>x. qrCode x = lastScannedCode (processQRCode ''X'' (mounted door_list)))
      (bookings (processQRCode ''X'' (mounted door_list))) = Some ticket_cancelled"
    by (simp add: processQRCode_def door_defs)
  have s2: "status ticket_cancelled \<noteq> confirmed"
    by (simp add: ticket_cancelled_def)
  have h2: "\<forall>x. find (\<lambda>x. qrCode x = lastScannedCode (processQRCode ''X'' (mounted door_list)))
      (bookings (processQRCode ''X'' (mounted door_list))) = Some x \<longrightarrow> status x \<noteq> confirmed"
    using s2 by (simp add: f2)
  have bs: "bookings (processQRCode ''MI3AD-001'' (mounted door_list)) = door_list"
    and al: "alerts (processQRCode ''MI3AD-001'' (mounted door_list)) = []"
    by (simp_all add: processQRCode_def door_defs)
  have mp: "map (\<lambda>x. if id_b x = id_b ticket_confirmed then x\<lparr>status := used\<rparr> else x) door_list
      = [ticket_confirmed\<lparr>status := used\<rparr>, ticket_cancelled, ticket_used]"
    by (simp add: door_defs)
  note t = confirmEntry_outcomes
    [where st = "processQRCode ''MI3AD-001'' (mounted door_list)" and b = ticket_confirmed
       and st' = "processQRCode ''X'' (mounted door_list)" and reachable = True]
  from t h1 have c1: "confirmEntry True (processQRCode ''MI3AD-001'' (mounted door_list))
            = (processQRCode ''MI3AD-001'' (mounted door_list))
                \<lparr>bookings := [ticket_confirmed\<lparr>status := used\<rparr>, ticket_cancelled, ticket_used],
                 alerts := [EntryConfirmed]\<rparr>"
    and c2: "confirmEntry False (processQRCode ''MI3AD-001'' (mounted door_list))
       = resetScanner ((processQRCode ''MI3AD-001'' (mounted door_list))
                         \<lparr>alerts := [EntryFailed]\<rparr>)"
    by (simp_all add: bs al mp)
  from t h2 have c3: "confirmEntry True (processQRCode ''X'' (mounted door_list))
       = processQRCode ''X'' (mounted door_list)"
    by blast
  show ?thesis
    using h1 f2 s2 c2 c3 by (simp add: c1)
qed

text \<open>
  The valid ticket, confirmed, and the confirm button pressed again on the next render:
  the result on display is still the valid one, the booking is read again and is now
  \<open>used\<close>, and the confirmation, expected to answer with a failure, ends without
  any further alert and without any change.
\<close>

theorem silent_commit_counterexample:
  "scanResult (confirmEntry True (processQRCode ''MI3AD-001'' (mounted door_list)))
     = Some \<lparr>type_r = success, title = ValidTicket, message = TicketOk 2 Free\<rparr>
   \<and> map_option status
        (find (\<lambda>x. qrCode x
                     = lastScannedCode (confirmEntry True
                         (processQRCode ''MI3AD-001'' (mounted door_list))))
           (bookings (confirmEntry True (processQRCode ''MI3AD-001'' (mounted door_list)))))
       = Some used
   \<and> confirmEntry_on (confirmEntry True (processQRCode ''MI3AD-001'' (mounted door_list))) True
        (confirmEntry True (processQRCode ''MI3AD-001'' (mounted door_list)))
       = confirmEntry True (processQRCode ''MI3AD-001'' (mounted door_list))
   \<and> alerts (confirmEntry_on
        (confirmEntry True (processQRCode ''MI3AD-001'' (mounted door_list))) True
        (confirmEntry True (processQRCode ''MI3AD-001'' (mounted door_list))))
       = [EntryConfirmed]"
  by (simp only: valid_scan_confirmed_state)
    (simp add: confirmEntry_on_def ticket_confirmed_def ticket_cancelled_def ticket_used_def)

section \<open>Properties of password hashing\<close>

text \<open>With a salt that is not empty, hashing does not depend on the random draw.\<close>

lemma salt_or_given: "s \<noteq> [] \<Longrightarrow> salt_or (Some s) fresh = s"
  by (simp add: salt_or_def)

lemma hashPassword_salt_fixed:
  assumes "s \<noteq> []"
  shows "hashPassword os sha256 rnd password (Some s)
           = hashPassword os sha256 rnd' password (Some s)"
  using assms by (cases os) (simp_all add: hashPassword_def salt_or_given)

lemma hashPassword_rehash:
  assumes "hashPassword os sha256 rnd password given = Inr r"
    and "salt r \<noteq> []"
  shows "hashPassword os sha256 rnd' password (Some (salt r)) = Inr r"
proof (cases os)
  case Web
  then show ?thesis
    using assms by (auto simp: hashPassword_def Let_def salt_or_given)
next
  case NativeCrypto
  then show ?thesis
    using assms by (auto simp: hashPassword_def Let_def salt_or_given)
next
  case NativeNoCrypto
  then show ?thesis
    using assms
    by (auto simp: hashPassword_def Let_def salt_or_given split: option.splits)
qed

text \<open>
  A password verifies against its own hash whenever the salt that was returned is not
  the empty string.
\<close>

lemma verifyPassword_roundtrip:
  assumes "hashPassword os sha256 rnd password None = Inr r"
    and "salt r \<noteq> []"
  shows "verifyPassword os sha256 rnd' password (hash r) (salt r)"
  using hashPassword_rehash [OF assms] by (simp add: verifyPassword_def)

text \<open>The encodings of the strings \<open>p\<close> and \<open>pi\<close>.\<close>

lemma btoa_p: "btoa [112] = Some [99, 65, 61, 61]"
  by (simp add: btoa_def base64_digit_def base64_alphabet_def base64_pad_def)

lemma btoa_pi: "btoa [112, 105] = Some [99, 71, 107, 61]"
  by (simp add: btoa_def base64_digit_def base64_alphabet_def base64_pad_def)

text \<open>
  Claim C10. A password is expected to verify against the hash and salt that
  \<open>hashPassword\<close> returned for it. On the fallback branch, with the password \<open>p\<close>:
  when the draw is 0, its text in base 36 is \<open>0\<close>, the salt cut from it is empty and
  the hash is the encoding of \<open>p\<close> alone. Verifying with that empty salt takes it as
  missing and draws a new one (here from \<open>0.i\<close>, the draw 0.5), hashes \<open>pi\<close>, and
  rejects the password.
\<close>

theorem verifyPassword_empty_salt:
  "hashPassword NativeNoCrypto sha256 (map of_char ''0'') [112] None
     = Inr \<lparr>hash = [99, 65, 61, 61], salt = []\<rparr>
   \<and> hashPassword NativeNoCrypto sha256 (map of_char ''0.i'') [112] (Some [])
     = Inr \<lparr>hash = [99, 71, 107, 61], salt = [105]\<rparr>
   \<and> verifyPassword NativeNoCrypto sha256 (map of_char ''0.i'') [112] [99, 65, 61, 61] []
     = False"
  by (simp add: verifyPassword_def hashPassword_def salt_or_def substring_def btoa_p btoa_pi)

end
